theory Spec2Isabelle
  imports Main
begin

text \<open>
  The executor of a small shell (\<^verbatim>\<open>cmd.c\<close>): \<^verbatim>\<open>parse_command\<close> walks a parsed
  command tree, runs the simple commands at its leaves (builtins in the shell itself,
  programs in a child process) and combines them with the operators of its inner nodes.
  The functions of \<^verbatim>\<open>cmd.c\<close> are embedded as functions on an explicit process state;
  what the operating system answers is a parameter.
\<close>

section \<open>The command tree of the parser (cmd.h)\<close>

text \<open>
  The header that declares the tree is not part of the sources. The types below have the
  fields that \<^verbatim>\<open>cmd.c\<close> reads, and \<^verbatim>\<open>next_word\<close>, the link from one argument of a
  command to the next, which \<^verbatim>\<open>cmd.c\<close> never follows itself (it hands the arguments to
  \<^verbatim>\<open>get_argv\<close>). A pointer that may be \<^verbatim>\<open>NULL\<close> is an \<open>option\<close>. A word is a
  chain of parts (\<^verbatim>\<open>next_part\<close>): in \<^verbatim>\<open>VAR=value\<close> the verb has the parts
  \<^verbatim>\<open>VAR\<close>, \<^verbatim>\<open>=\<close> and \<^verbatim>\<open>value\<close>. The fields \<^verbatim>\<open>up\<close> and \<^verbatim>\<open>aux\<close> are never
  read and are left out.
\<close>

datatype word_t =
  Word (string: string) (expand: bool) (next_part: "word_t option") (next_word: "word_t option")

record simple_command_t =
  verb :: "word_t option"
  params :: "word_t option"
  inp :: "word_t option"
  out :: "word_t option"
  err :: "word_t option"
  io_flags :: int

text \<open>
  The operator of a node is a C enumeration; \<open>OP_UNKNOWN k\<close> stands for any value
  other than the six that \<^verbatim>\<open>parse_command\<close> names.
\<close>

datatype operator_t =
  OP_NONE | OP_SEQUENTIAL | OP_PARALLEL | OP_CONDITIONAL_ZERO | OP_CONDITIONAL_NZERO | OP_PIPE
  | OP_UNKNOWN int

datatype command_t =
  Command (cmd1: "command_t option") (cmd2: "command_t option") (op: operator_t)
    (scmd: "simple_command_t option")

section \<open>The process and the operating system\<close>

text \<open>
  What \<^verbatim>\<open>wait\<close> stores in \<^verbatim>\<open>status\<close>: a child either exited with a code
  or was ended by a signal. \<^verbatim>\<open>WEXITSTATUS\<close> reads bits 8 to 15 of the status word,
  which are zero for a child ended by a signal.
\<close>

datatype wstatus = WExit nat | WSignal nat

fun WIFEXITED :: "wstatus \<Rightarrow> bool" where
  "WIFEXITED (WExit n) = True"
| "WIFEXITED (WSignal n) = False"

fun WEXITSTATUS :: "wstatus \<Rightarrow> int" where
  "WEXITSTATUS (WExit n) = int (n mod 256)"
| "WEXITSTATUS (WSignal n) = 0"

definition EXIT_SUCCESS :: nat where "EXIT_SUCCESS = 0"
definition EXIT_FAILURE :: nat where "EXIT_FAILURE = 1"

definition STDIN_FILENO :: int where "STDIN_FILENO = 0"
definition STDOUT_FILENO :: int where "STDOUT_FILENO = 1"
definition STDERR_FILENO :: int where "STDERR_FILENO = 2"

datatype open_flag = O_CREAT | O_WRONLY | O_RDONLY | O_APPEND | O_TRUNC

text \<open>
  An open file description: what a descriptor refers to. Each successful \<^verbatim>\<open>open\<close>
  makes a new one (the number tells two opens of one path apart); \<^verbatim>\<open>dup\<close> and
  \<^verbatim>\<open>dup2\<close> share it.
\<close>

datatype ofd =
  Inherited nat
  | OpenFile nat string "open_flag set"
  | PipeRead nat
  | PipeWrite nat

text \<open>
  The system calls that leave a mark outside the calling process, in order, and the
  calls \<^verbatim>\<open>fork\<close> and \<^verbatim>\<open>pipe\<close> that the host refused (every \<^verbatim>\<open>open\<close> is
  recorded, refused or not).
\<close>

datatype event =
  EvFork
  | EvOpen string "open_flag set"
  | EvDiag "ofd option" string
  | EvExec string "string list" wstatus
  | EvWait nat wstatus
  | EvFailed string

text \<open>
  The state of one process: working directory, environment, descriptor table (index =
  descriptor), its terminated children that no \<^verbatim>\<open>wait\<close> has collected yet (in the
  order of their creation), and the number of children it has created, which names the
  next child. \<open>trace\<close> and \<open>next_id\<close> are shared by all processes.
\<close>

record state =
  cwd :: string
  environ :: "string \<Rightarrow> string option"
  fds :: "ofd option list"
  zombies :: "(nat \<times> wstatus) list"
  nforks :: nat
  next_id :: nat
  trace :: "event list"

text \<open>
  What the sources do not contain: the constant \<^verbatim>\<open>SHELL_EXIT\<close> and the functions
  \<^verbatim>\<open>get_word\<close> and \<^verbatim>\<open>get_argv\<close> of \<^verbatim>\<open>utils.h\<close>, the status with which the
  macro \<^verbatim>\<open>DIE\<close> ends the process, and the answers of the operating system. They are
  parameters of every function below. Whether \<^verbatim>\<open>get_word\<close> accepts a null pointer
  cannot be read from the sources either: \<open>get_word_null\<close> says that it does, and
  where it does not, handing it one is a null dereference.
\<close>

record host =
  SHELL_EXIT :: int
  die_status :: wstatus
  get_word :: "(string \<Rightarrow> string option) \<Rightarrow> word_t option \<Rightarrow> string"
  get_word_null :: bool
  get_argv :: "(string \<Rightarrow> string option) \<Rightarrow> simple_command_t \<Rightarrow> string list"
  can_open :: "state \<Rightarrow> string \<Rightarrow> open_flag set \<Rightarrow> bool"
  can_fork :: "state \<Rightarrow> bool"
  can_pipe :: "state \<Rightarrow> bool"
  chdir_to :: "state \<Rightarrow> string \<Rightarrow> string option"
  run_program :: "state \<Rightarrow> string \<Rightarrow> string list \<Rightarrow> wstatus option"
  wait_pick :: "state \<Rightarrow> nat"

text \<open>
  A call either returns a value, or ends the process (\<^verbatim>\<open>exit\<close>, \<^verbatim>\<open>DIE\<close>), or
  dereferences a null pointer, after which nothing is known.
\<close>

datatype 'a outcome = Ret 'a state | Halt wstatus state | Fault

fun result :: "'a outcome \<Rightarrow> 'a option" where
  "result (Ret a st) = Some a"
| "result (Halt w st) = None"
| "result Fault = None"

fun final :: "'a outcome \<Rightarrow> state option" where
  "final (Ret a st) = Some st"
| "final (Halt w st) = Some st"
| "final Fault = None"


subsection \<open>Descriptors\<close>

definition fd_get :: "ofd option list \<Rightarrow> int \<Rightarrow> ofd option" where
  "fd_get t fd = (if 0 \<le> fd \<and> nat fd < length t then t ! nat fd else None)"

definition fd_put :: "ofd option list \<Rightarrow> nat \<Rightarrow> ofd \<Rightarrow> ofd option list" where
  "fd_put t n d =
     (if n < length t then t[n := Some d] else t @ replicate (n - length t) None @ [Some d])"

fun fd_free :: "ofd option list \<Rightarrow> nat" where
  "fd_free [] = 0"
| "fd_free (None # t) = 0"
| "fd_free (Some d # t) = Suc (fd_free t)"

definition sys_dup :: "int \<Rightarrow> state \<Rightarrow> int \<times> state" where
  "sys_dup fd st =
     (case fd_get (fds st) fd of
        None \<Rightarrow> (- 1, st)
      | Some d \<Rightarrow>
          (int (fd_free (fds st)), st\<lparr>fds := fd_put (fds st) (fd_free (fds st)) d\<rparr>))"

definition sys_dup2 :: "int \<Rightarrow> int \<Rightarrow> state \<Rightarrow> state" where
  "sys_dup2 oldfd newfd st =
     (case fd_get (fds st) oldfd of
        None \<Rightarrow> st
      | Some d \<Rightarrow> if newfd < 0 then st else st\<lparr>fds := fd_put (fds st) (nat newfd) d\<rparr>)"

definition sys_close :: "int \<Rightarrow> state \<Rightarrow> state" where
  "sys_close fd st =
     (case fd_get (fds st) fd of
        None \<Rightarrow> st
      | Some d \<Rightarrow> st\<lparr>fds := (fds st)[nat fd := None]\<rparr>)"

definition sys_open :: "host \<Rightarrow> string \<Rightarrow> open_flag set \<Rightarrow> state \<Rightarrow> int \<times> state" where
  "sys_open h path fl st =
     (if can_open h st path fl then
        (int (fd_free (fds st)),
         st\<lparr>fds := fd_put (fds st) (fd_free (fds st)) (OpenFile (next_id st) path fl),
            next_id := Suc (next_id st),
            trace := trace st @ [EvOpen path fl]\<rparr>)
      else (- 1, st\<lparr>trace := trace st @ [EvOpen path fl]\<rparr>))"

text \<open>\<^verbatim>\<open>pipe(fd)\<close>: the read end is \<open>fd[0]\<close>, the write end \<open>fd[1]\<close>.\<close>

definition sys_pipe :: "state \<Rightarrow> int \<times> int \<times> state" where
  "sys_pipe st =
     (let r = fd_free (fds st);
          t = fd_put (fds st) r (PipeRead (next_id st));
          w = fd_free t
      in (int r, int w, st\<lparr>fds := fd_put t w (PipeWrite (next_id st)), next_id := Suc (next_id st)\<rparr>))"

subsection \<open>Directory, environment, diagnostics\<close>

definition sys_chdir :: "host \<Rightarrow> string \<Rightarrow> state \<Rightarrow> int \<times> state" where
  "sys_chdir h path st =
     (case chdir_to h st path of
        None \<Rightarrow> (- 1, st)
      | Some d \<Rightarrow> (0, st\<lparr>cwd := d\<rparr>))"

definition sys_setenv :: "string \<Rightarrow> string \<Rightarrow> state \<Rightarrow> int \<times> state" where
  "sys_setenv name val st =
     (if name = [] \<or> CHR ''='' \<in> set name then (- 1, st)
      else (0, st\<lparr>environ := (environ st)(name \<mapsto> val)\<rparr>))"

text \<open>A write to the standard error stream, with what descriptor 2 refers to then.\<close>

definition to_stderr :: "string \<Rightarrow> state \<Rightarrow> state" where
  "to_stderr msg st = st\<lparr>trace := trace st @ [EvDiag (fd_get (fds st) STDERR_FILENO) msg]\<rparr>"

definition perror :: "string \<Rightarrow> state \<Rightarrow> state" where
  "perror msg st = to_stderr msg st"

subsection \<open>Children\<close>

text \<open>
  \<^verbatim>\<open>fork\<close> gives the child a copy of the parent's state; the child has no children
  of its own yet. The model runs a child to its end at the point of the \<^verbatim>\<open>fork\<close>:
  \<open>after_child\<close> is the parent once the child, created as number \<open>nforks\<close>, has ended
  with status \<open>w\<close> in the state \<open>c\<close>. Which of several ended children a
  \<^verbatim>\<open>wait\<close> reports is the host's choice.
\<close>

definition child_of :: "state \<Rightarrow> state" where
  "child_of st = st\<lparr>zombies := [], nforks := 0, trace := trace st @ [EvFork]\<rparr>"

definition after_child :: "state \<Rightarrow> wstatus \<Rightarrow> state \<Rightarrow> state" where
  "after_child st w c =
     st\<lparr>zombies := zombies st @ [(nforks st, w)], nforks := Suc (nforks st),
        next_id := next_id c, trace := trace c\<rparr>"

text \<open>A \<^verbatim>\<open>fork\<close> or a \<^verbatim>\<open>pipe\<close> that the host refused.\<close>

definition failed :: "string \<Rightarrow> state \<Rightarrow> state" where
  "failed call st = st\<lparr>trace := trace st @ [EvFailed call]\<rparr>"

text \<open>\<^verbatim>\<open>wait(&status)\<close>: with no child to report, \<open>status\<close> keeps its value.\<close>

definition sys_wait :: "host \<Rightarrow> wstatus \<Rightarrow> state \<Rightarrow> wstatus \<times> state" where
  "sys_wait h status st =
     (if zombies st = [] then (status, st)
      else
        (let k = wait_pick h st mod length (zombies st);
             z = zombies st ! k
         in (snd z,
             st\<lparr>zombies := take k (zombies st) @ drop (Suc k) (zombies st),
                trace := trace st @ [EvWait (fst z) (snd z)]\<rparr>)))"

text \<open>
  \<^verbatim>\<open>waitpid(pid, &status, WSTOPPED)\<close>: the child named \<open>pid\<close>. Children are
  run to their end here, so none is reported as stopped.
\<close>

definition sys_waitpid :: "nat \<Rightarrow> wstatus \<Rightarrow> state \<Rightarrow> wstatus \<times> state" where
  "sys_waitpid pid status st =
     (case map_of (zombies st) pid of
        None \<Rightarrow> (status, st)
      | Some w \<Rightarrow>
          (w, st\<lparr>zombies := filter (\<lambda>z. fst z \<noteq> pid) (zombies st),
                 trace := trace st @ [EvWait pid w]\<rparr>))"

text \<open>
  The end of a child that runs a subtree: \<^verbatim>\<open>if (rc < 0) exit(EXIT_FAILURE);
  exit(EXIT_SUCCESS);\<close>
\<close>

definition exit_of :: "int \<Rightarrow> wstatus" where
  "exit_of rc = (if rc < 0 then WExit EXIT_FAILURE else WExit EXIT_SUCCESS)"

fun child_end :: "int outcome \<Rightarrow> (wstatus \<times> state) option" where
  "child_end (Ret rc c) = Some (exit_of rc, c)"
| "child_end (Halt w c) = Some (w, c)"
| "child_end Fault = None"

section \<open>The executor (cmd.c)\<close>

text \<open>
  The parameters \<^verbatim>\<open>level\<close> and \<^verbatim>\<open>father\<close> are passed along by every function
  and never read; the model leaves them out.
\<close>

text \<open>
  Modelled from the spec: the macro \<^verbatim>\<open>DIE\<close> of \<^verbatim>\<open>utils.h\<close> is missing. The spec
  calls its failures fatal: "process aborts immediately". \<open>die\<close> ends the process.
\<close>

definition die :: "host \<Rightarrow> state \<Rightarrow> 'a outcome" where
  "die h st = Halt (die_status h) st"

subsection \<open>Builtins\<close>

definition shell_cd :: "host \<Rightarrow> word_t option \<Rightarrow> state \<Rightarrow> bool \<times> state" where
  "shell_cd h dir st =
     (case dir of
        None \<Rightarrow> (False, st)
      | Some d \<Rightarrow>
          if next_part d \<noteq> None then (False, st)
          else
            (let (rc, st1) = sys_chdir h (string d) st
             in if rc < 0 then (False, perror ''cd'' st1) else (True, st1)))"

definition shell_exit :: "host \<Rightarrow> int" where
  "shell_exit h = SHELL_EXIT h"

subsection \<open>Redirections\<close>

definition flags :: "open_flag set list" where
  "flags = [{O_CREAT, O_WRONLY}, {O_CREAT, O_WRONLY}, {O_CREAT, O_RDONLY}]"

definition outs :: "int list" where
  "outs = [STDOUT_FILENO, STDERR_FILENO, STDIN_FILENO]"

text \<open>
  The end of the loop body of \<^verbatim>\<open>open_files\<close>: \<^verbatim>\<open>DIE(fd[i] < 0, "open");
  dup2(fd[i], outs[i]); close(fd[i]);\<close>
\<close>

definition redirect :: "host \<Rightarrow> int \<Rightarrow> nat \<Rightarrow> 'a \<Rightarrow> state \<Rightarrow> 'a outcome" where
  "redirect h fd i x st =
     (if fd < 0 then die h st else Ret x (sys_close fd (sys_dup2 fd (outs ! i) st)))"

text \<open>
  One round of the loop of \<^verbatim>\<open>open_files\<close>, on the arrays \<^verbatim>\<open>redir\<close> and
  \<^verbatim>\<open>outs_save\<close> (the latter filled in the order of the rounds).
\<close>

definition open_files_body ::
  "host \<Rightarrow> simple_command_t \<Rightarrow> nat \<Rightarrow> word_t option list \<times> int list \<Rightarrow> state \<Rightarrow>
     (word_t option list \<times> int list) outcome" where
  "open_files_body h s i x st =
     (let redir = fst x;
          (saved, st1) = sys_dup (outs ! i) st;
          outs_save = snd x @ [saved]
      in if redir ! i \<noteq> None then
           (let file = get_word h (environ st1) (redir ! i)
            in if redir ! 1 \<noteq> None \<and> i = 0 \<and>
                  get_word h (environ st1) (redir ! 0) = get_word h (environ st1) (redir ! 1)
               then
                 (let (fd0, st2) = sys_open h file (flags ! 0 \<union> {O_APPEND} \<union> {O_TRUNC}) st1;
                      st3 = sys_dup2 fd0 (outs ! 1) st2
                  in redirect h fd0 i (redir[1 := None], outs_save) st3)
               else if io_flags s \<noteq> 0 \<or> i = 2 then
                 (let (fdi, st2) = sys_open h file (flags ! i \<union> {O_APPEND}) st1
                  in redirect h fdi i (redir, outs_save) st2)
               else
                 (let (fdi, st2) = sys_open h file (flags ! i \<union> {O_TRUNC}) st1
                  in redirect h fdi i (redir, outs_save) st2))
         else Ret (redir, outs_save) st1)"

fun open_files_loop ::
  "host \<Rightarrow> simple_command_t \<Rightarrow> nat list \<Rightarrow> word_t option list \<times> int list \<Rightarrow> state \<Rightarrow>
     (word_t option list \<times> int list) outcome" where
  "open_files_loop h s [] x st = Ret x st"
| "open_files_loop h s (i # rest) x st =
     (case open_files_body h s i x st of
        Ret y st1 \<Rightarrow> open_files_loop h s rest y st1
      | Halt w st1 \<Rightarrow> Halt w st1
      | Fault \<Rightarrow> Fault)"

definition open_files :: "host \<Rightarrow> simple_command_t \<Rightarrow> state \<Rightarrow> int list outcome" where
  "open_files h s st =
     (case open_files_loop h s [0, 1, 2] ([out s, err s, inp s], []) st of
        Ret y st1 \<Rightarrow> Ret (snd y) st1
      | Halt w st1 \<Rightarrow> Halt w st1
      | Fault \<Rightarrow> Fault)"

text \<open>
  \<^verbatim>\<open>fix_redirects\<close> is only called with the three saved descriptors that
  \<^verbatim>\<open>open_files\<close> returned.
\<close>

definition fix_redirects :: "int list \<Rightarrow> state \<Rightarrow> state" where
  "fix_redirects outs_save st =
     foldl (\<lambda>st1 i. sys_close (outs_save ! i) (sys_dup2 (outs_save ! i) (outs ! i) st1))
       st [0, 1, 2]"

subsection \<open>Simple commands\<close>

text \<open>
  The child of \<^verbatim>\<open>parse_simple\<close>: redirections, then \<^verbatim>\<open>execvp\<close>. It yields the
  status with which the child ends and the state it ends in.
\<close>

definition exec_child ::
  "host \<Rightarrow> simple_command_t \<Rightarrow> string \<Rightarrow> state \<Rightarrow> (wstatus \<times> state) option" where
  "exec_child h s command c =
     (case open_files h s c of
        Ret outs_save c1 \<Rightarrow>
          (case run_program h c1 command (get_argv h (environ c1) s) of
             None \<Rightarrow>
               Some (WExit EXIT_FAILURE,
                 to_stderr (''Execution failed for '' @ [CHR 0x27] @ command @ [CHR 0x27, CHR 0x0A]) c1)
           | Some w \<Rightarrow>
               Some (w, c1\<lparr>trace := trace c1 @ [EvExec command (get_argv h (environ c1) s) w]\<rparr>))
      | Halt w c1 \<Rightarrow> Some (w, c1)
      | Fault \<Rightarrow> None)"

definition run_external :: "host \<Rightarrow> simple_command_t \<Rightarrow> string \<Rightarrow> state \<Rightarrow> int outcome" where
  "run_external h s command st =
     (if \<not> can_fork h st then die h (failed ''fork'' st)
      else
        (case exec_child h s command (child_of st) of
           None \<Rightarrow> Fault
         | Some (w, c) \<Rightarrow>
             (let (status, st1) = sys_wait h (WExit 0) (after_child st w c)
              in Ret (WEXITSTATUS status) st1)))"

definition parse_simple :: "host \<Rightarrow> simple_command_t option \<Rightarrow> state \<Rightarrow> int outcome" where
  "parse_simple h sp st =
     (case sp of
        None \<Rightarrow> Fault
      | Some s \<Rightarrow>
          (case verb s of
             None \<Rightarrow> Ret (- 1) st
           | Some v \<Rightarrow>
               (let command = get_word h (environ st) (verb s)
                in if command = ''true'' then Ret 0 st
                   else if command = ''false'' then Ret (- 1) st
                   else if command = ''cd'' then
                     (case open_files h s st of
                        Ret outs_save st1 \<Rightarrow>
                          (let (ok, st2) = shell_cd h (params s) st1;
                               rc = (if ok then 0 else 1)
                           in Ret rc (fix_redirects outs_save st2))
                      | Halt w st1 \<Rightarrow> Halt w st1
                      | Fault \<Rightarrow> Fault)
                   else if command = ''exit'' \<or> command = ''quit'' then Ret (shell_exit h) st
                   else
                     (case next_part v of
                        None \<Rightarrow> run_external h s command st
                      | Some p \<Rightarrow>
                          if string p = ''='' then
                            (if next_part p = None \<and> \<not> get_word_null h then Fault
                             else
                               (let var = get_word h (environ st) (next_part p);
                                    (rc, st1) = sys_setenv (string v) var st
                                in Ret rc st1))
                          else run_external h s command st))))"

subsection \<open>Operators\<close>

text \<open>
  The loop of \<^verbatim>\<open>run_in_parallel\<close>: \<^verbatim>\<open>while (i != 0) { wait(&status);
  if (!WIFEXITED(status)) return false; i--; }\<close>, then \<^verbatim>\<open>return true\<close>.
\<close>

fun wait_children :: "host \<Rightarrow> nat \<Rightarrow> wstatus \<Rightarrow> state \<Rightarrow> bool \<times> state" where
  "wait_children h 0 status st = (True, st)"
| "wait_children h (Suc i) status st =
     (let (status1, st1) = sys_wait h status st
      in if \<not> WIFEXITED status1 then (False, st1) else wait_children h i status1 st1)"

text \<open>
  The parent's end of \<^verbatim>\<open>run_on_pipe\<close>, with the two children \<open>child1\<close> and
  \<open>child2\<close>: close both ends, wait for each child by name, test the last status.
\<close>

definition pipe_parent :: "int \<Rightarrow> int \<Rightarrow> nat \<Rightarrow> nat \<Rightarrow> state \<Rightarrow> bool \<times> state" where
  "pipe_parent fd0 fd1 child1 child2 st =
     (let st1 = sys_close fd1 (sys_close fd0 st);
          (status1, st2) = sys_waitpid child1 (WExit 0) st1;
          (status2, st3) = sys_waitpid child2 status1 st2
      in if WEXITSTATUS status2 \<noteq> 0 then (False, st3) else (True, st3))"

definition pipe_writer :: "int \<Rightarrow> int \<Rightarrow> state \<Rightarrow> state" where
  "pipe_writer fd0 fd1 c = sys_close fd1 (sys_close fd0 (sys_dup2 fd1 STDOUT_FILENO c))"

definition pipe_reader :: "int \<Rightarrow> int \<Rightarrow> state \<Rightarrow> state" where
  "pipe_reader fd0 fd1 c = sys_close fd1 (sys_close fd0 (sys_dup2 fd0 STDIN_FILENO c))"

text \<open>\<^verbatim>\<open>!b\<close> for a \<^verbatim>\<open>bool\<close> \<open>b\<close>, as an \<^verbatim>\<open>int\<close>.\<close>

definition negate :: "bool \<Rightarrow> int" where
  "negate b = (if b then 0 else 1)"

function parse_command :: "host \<Rightarrow> command_t option \<Rightarrow> state \<Rightarrow> int outcome"
  and run_in_parallel :: "host \<Rightarrow> command_t option \<Rightarrow> command_t option \<Rightarrow> state \<Rightarrow> bool outcome"
  and run_on_pipe :: "host \<Rightarrow> command_t option \<Rightarrow> command_t option \<Rightarrow> state \<Rightarrow> bool outcome"
where
  "parse_command h None st = Fault"
| "parse_command h (Some (Command c1 c2 opr sp)) st =
     (if c1 = None \<and> c2 = None \<and> sp = None then Ret (- 1) st
      else
        (case opr of
           OP_NONE \<Rightarrow> parse_simple h sp st
         | OP_SEQUENTIAL \<Rightarrow>
             (case parse_command h c1 st of
                Ret r1 st1 \<Rightarrow>
                  (case parse_command h c2 st1 of
                     Ret r2 st2 \<Rightarrow> Ret (- 1) st2
                   | Halt w st2 \<Rightarrow> Halt w st2
                   | Fault \<Rightarrow> Fault)
              | Halt w st1 \<Rightarrow> Halt w st1
              | Fault \<Rightarrow> Fault)
         | OP_PARALLEL \<Rightarrow>
             (case run_in_parallel h c1 c2 st of
                Ret b st1 \<Rightarrow> Ret (negate b) st1
              | Halt w st1 \<Rightarrow> Halt w st1
              | Fault \<Rightarrow> Fault)
         | OP_CONDITIONAL_NZERO \<Rightarrow>
             (case parse_command h c1 st of
                Ret r1 st1 \<Rightarrow>
                  if r1 \<noteq> 0 then
                    (case parse_command h c2 st1 of
                       Ret r2 st2 \<Rightarrow> Ret (- 1) st2
                     | Halt w st2 \<Rightarrow> Halt w st2
                     | Fault \<Rightarrow> Fault)
                  else Ret (- 1) st1
              | Halt w st1 \<Rightarrow> Halt w st1
              | Fault \<Rightarrow> Fault)
         | OP_CONDITIONAL_ZERO \<Rightarrow>
             (case parse_command h c1 st of
                Ret r1 st1 \<Rightarrow>
                  if r1 = 0 then
                    (case parse_command h c2 st1 of
                       Ret r2 st2 \<Rightarrow> Ret (- 1) st2
                     | Halt w st2 \<Rightarrow> Halt w st2
                     | Fault \<Rightarrow> Fault)
                  else Ret (- 1) st1
              | Halt w st1 \<Rightarrow> Halt w st1
              | Fault \<Rightarrow> Fault)
         | OP_PIPE \<Rightarrow>
             (case run_on_pipe h c1 c2 st of
                Ret b st1 \<Rightarrow> Ret (negate b) st1
              | Halt w st1 \<Rightarrow> Halt w st1
              | Fault \<Rightarrow> Fault)
         | OP_UNKNOWN k \<Rightarrow> Ret (SHELL_EXIT h) st))"
| "run_in_parallel h c1 c2 st =
     (if \<not> can_fork h st then die h (failed ''fork'' st)
      else
        (case child_end (parse_command h c1 (child_of st)) of
           None \<Rightarrow> Fault
         | Some (w1, e1) \<Rightarrow>
             (let st1 = after_child st w1 e1
              in if \<not> can_fork h st1 then die h (failed ''fork'' st1)
                 else
                   (case child_end (parse_command h c2 (child_of st1)) of
                      None \<Rightarrow> Fault
                    | Some (w2, e2) \<Rightarrow>
                        (let (b, st2) = wait_children h 2 (WExit 0) (after_child st1 w2 e2)
                         in Ret b st2)))))"
| "run_on_pipe h c1 c2 st =
     (if \<not> can_pipe h st then die h (failed ''pipe'' st)
      else
        (let (fd0, fd1, st0) = sys_pipe st
         in if \<not> can_fork h st0 then die h (failed ''fork'' st0)
            else
              (case child_end (parse_command h c1 (pipe_writer fd0 fd1 (child_of st0))) of
                 None \<Rightarrow> Fault
               | Some (w1, e1) \<Rightarrow>
                   (let st1 = after_child st0 w1 e1
                    in if \<not> can_fork h st1 then die h (failed ''fork'' st1)
                       else
                         (case child_end (parse_command h c2 (pipe_reader fd0 fd1 (child_of st1))) of
                            None \<Rightarrow> Fault
                          | Some (w2, e2) \<Rightarrow>
                              (let (b, st2) =
                                     pipe_parent fd0 fd1 (nforks st0) (nforks st1)
                                       (after_child st1 w2 e2)
                               in Ret b st2))))))"
  by pat_completeness auto

termination
  by (relation "measure (\<lambda>x. case x of
          Inl (h, c, st) \<Rightarrow> 2 * size_option size c
        | Inr (Inl (h, c1, c2, st)) \<Rightarrow> 2 * (size_option size c1 + size_option size c2) + 1
        | Inr (Inr (h, c1, c2, st)) \<Rightarrow> 2 * (size_option size c1 + size_option size c2) + 1)")
    auto

section \<open>Well-formed trees\<close>



section \<open>A concrete host, a concrete state and concrete trees\<close>

text \<open>
  A host for the examples: a word is the concatenation of its parts, the only directory
  is \<open>/tmp\<close>, the file \<open>/forbidden\<close> cannot be opened, the programs are \<open>ls\<close>
  (exit code 0) and \<open>grep\<close> (exit code 1), and \<^verbatim>\<open>wait\<close> reports the oldest child.
\<close>

fun plain_word :: "word_t option \<Rightarrow> string" where
  "plain_word None = []"
| "plain_word (Some (Word s e np nw)) = s @ plain_word np"

fun plain_argv :: "word_t option \<Rightarrow> string list" where
  "plain_argv None = []"
| "plain_argv (Some (Word s e np nw)) = plain_word (Some (Word s e np None)) # plain_argv nw"

definition host0 :: host where
  "host0 =
     \<lparr>SHELL_EXIT = - 100, die_status = WExit 1,
      get_word = (\<lambda>env w. plain_word w),
      get_word_null = True,
      get_argv = (\<lambda>env s. plain_word (verb s) # plain_argv (params s)),
      can_open = (\<lambda>st p fl. p \<noteq> ''/forbidden''),
      can_fork = (\<lambda>st. True),
      can_pipe = (\<lambda>st. True),
      chdir_to = (\<lambda>st p. if p = ''/tmp'' then Some ''/tmp'' else None),
      run_program =
        (\<lambda>st c a. if c = ''ls'' then Some (WExit 0) else if c = ''grep'' then Some (WExit 1) else None),
      wait_pick = (\<lambda>st. 0)\<rparr>"

text \<open>The same host, but \<^verbatim>\<open>wait\<close> reports the youngest child first.\<close>

definition host1 :: host where
  "host1 = host0\<lparr>wait_pick := (\<lambda>st. length (zombies st) - 1)\<rparr>"

definition state0 :: state where
  "state0 =
     \<lparr>cwd = ''/'', environ = Map.empty,
      fds = [Some (Inherited 0), Some (Inherited 1), Some (Inherited 2)],
      zombies = [], nforks = 0, next_id = 0, trace = []\<rparr>"

definition word :: "string \<Rightarrow> word_t" where
  "word x = Word x False None None"

definition simple :: "string \<Rightarrow> word_t option \<Rightarrow> simple_command_t" where
  "simple v ps = \<lparr>verb = Some (word v), params = ps, inp = None, out = None, err = None, io_flags = 0\<rparr>"

definition leaf :: "simple_command_t \<Rightarrow> command_t" where
  "leaf s = Command None None OP_NONE (Some s)"

definition node :: "operator_t \<Rightarrow> command_t \<Rightarrow> command_t \<Rightarrow> command_t" where
  "node opr a b = Command (Some a) (Some b) opr None"

text \<open>A command with its standard output and its standard error redirected to one path.\<close>

definition both_to :: "string \<Rightarrow> simple_command_t \<Rightarrow> simple_command_t" where
  "both_to f s = s\<lparr>out := Some (word f), err := Some (word f)\<rparr>"



section \<open>What a call leaves alone\<close>

text \<open>
  \<open>frame st st1\<close>: the working directory, the environment and the children of the
  process are in \<open>st1\<close> what they were in \<open>st\<close>.
\<close>

definition frame :: "state \<Rightarrow> state \<Rightarrow> bool" where
  "frame st st1 =
     (cwd st1 = cwd st \<and> environ st1 = environ st \<and> zombies st1 = zombies st \<and>
      nforks st1 = nforks st)"

text \<open>
  The state in which the downstream child of a pipe starts the right-hand subtree, when
  the pipe and both children could be created and the upstream child \<open>a\<close> has run.
\<close>

definition pipe_downstream :: "host \<Rightarrow> command_t option \<Rightarrow> state \<Rightarrow> state option" where
  "pipe_downstream h a st =
     (if \<not> can_pipe h st then None
      else
        (let (fd0, fd1, st0) = sys_pipe st
         in if \<not> can_fork h st0 then None
            else
              (case child_end (parse_command h a (pipe_writer fd0 fd1 (child_of st0))) of
                 None \<Rightarrow> None
               | Some (w1, e1) \<Rightarrow>
                   if \<not> can_fork h (after_child st0 w1 e1) then None
                   else Some (pipe_reader fd0 fd1 (child_of (after_child st0 w1 e1))))))"


definition refused_call :: "host \<Rightarrow> state \<Rightarrow> bool" where
  "refused_call h st =
     (trace st \<noteq> [] \<and>
      (case last (trace st) of
         EvOpen p fl \<Rightarrow> \<not> can_open h (st\<lparr>trace := butlast (trace st)\<rparr>) p fl
       | EvFailed call \<Rightarrow>
           (call = ''fork'' \<and> \<not> can_fork h (st\<lparr>trace := butlast (trace st)\<rparr>)) \<or>
           (call = ''pipe'' \<and> \<not> can_pipe h (st\<lparr>trace := butlast (trace st)\<rparr>))
       | EvFork \<Rightarrow> False
       | EvDiag d m \<Rightarrow> False
       | EvExec c a w \<Rightarrow> False
       | EvWait n w \<Rightarrow> False))"

definition fine :: "host \<Rightarrow> 'a outcome \<Rightarrow> bool" where
  "fine h r =
     (case r of
        Ret a st \<Rightarrow> True
      | Halt w st \<Rightarrow> w = die_status h \<and> refused_call h st
      | Fault \<Rightarrow> False)"

section \<open>Auxiliary facts\<close>

subsection \<open>The concrete host and trees\<close>

lemma host0_sel:
  "get_word host0 env w = plain_word w"
  "chdir_to host0 st p = (if p = ''/tmp'' then Some ''/tmp'' else None)"
  "SHELL_EXIT host0 = - 100" "can_fork host0 st" "can_pipe host0 st" "die_status host0 = WExit 1"
  "can_open host0 st p fl = (p \<noteq> ''/forbidden'')"
  "run_program host0 st c a =
     (if c = ''ls'' then Some (WExit 0) else if c = ''grep'' then Some (WExit 1) else None)"
  "wait_pick host0 st = 0"
  by (simp_all add: host0_def)

lemma simple_sel:
  "verb (simple v ps) = Some (word v)" "params (simple v ps) = ps"
  "out (simple v ps) = None" "err (simple v ps) = None" "inp (simple v ps) = None"
  "io_flags (simple v ps) = 0"
  by (simp_all add: simple_def)

lemma plain_word_word [simp]: "plain_word (Some (word v)) = v"
  by (simp add: word_def)

lemma word_sel [simp]: "string (word v) = v" "next_part (word v) = None" "next_word (word v) = None"
  by (simp_all add: word_def)

subsection \<open>Descriptor calls change the descriptor table only\<close>

lemma frame_refl [simp]: "frame st st"
  by (simp add: frame_def)

lemma frame_trans: "frame a b \<Longrightarrow> frame b c \<Longrightarrow> frame a c"
  by (simp add: frame_def)

lemma dup_fields [simp]:
  "cwd (snd (sys_dup fd st)) = cwd st" "environ (snd (sys_dup fd st)) = environ st"
  "zombies (snd (sys_dup fd st)) = zombies st" "nforks (snd (sys_dup fd st)) = nforks st"
  "trace (snd (sys_dup fd st)) = trace st" "next_id (snd (sys_dup fd st)) = next_id st"
  by (simp_all add: sys_dup_def split: option.split)

lemma dup2_fields [simp]:
  "cwd (sys_dup2 a b st) = cwd st" "environ (sys_dup2 a b st) = environ st"
  "zombies (sys_dup2 a b st) = zombies st" "nforks (sys_dup2 a b st) = nforks st"
  "trace (sys_dup2 a b st) = trace st" "next_id (sys_dup2 a b st) = next_id st"
  by (simp_all add: sys_dup2_def split: option.split)

lemma close_fields [simp]:
  "cwd (sys_close a st) = cwd st" "environ (sys_close a st) = environ st"
  "zombies (sys_close a st) = zombies st" "nforks (sys_close a st) = nforks st"
  "trace (sys_close a st) = trace st" "next_id (sys_close a st) = next_id st"
  by (simp_all add: sys_close_def split: option.split)

lemma open_fields [simp]:
  "cwd (snd (sys_open h p fl st)) = cwd st" "environ (snd (sys_open h p fl st)) = environ st"
  "zombies (snd (sys_open h p fl st)) = zombies st" "nforks (snd (sys_open h p fl st)) = nforks st"
  "trace (snd (sys_open h p fl st)) = trace st @ [EvOpen p fl]"
  by (simp_all add: sys_open_def)

lemma fix_fields [simp]:
  "cwd (fix_redirects xs st) = cwd st" "environ (fix_redirects xs st) = environ st"
  "zombies (fix_redirects xs st) = zombies st" "nforks (fix_redirects xs st) = nforks st"
  "trace (fix_redirects xs st) = trace st" "next_id (fix_redirects xs st) = next_id st"
  by (simp_all add: fix_redirects_def)

lemma redirect_cases:
  "redirect h fd i x st = (if fd < 0 then Halt (die_status h) st
     else Ret x (sys_close fd (sys_dup2 fd (outs ! i) st)))"
  by (simp add: redirect_def die_def)

lemma frame_body:
  "open_files_body h s i x st = Ret y st1 \<Longrightarrow> frame st st1"
  "open_files_body h s i x st = Halt w st1 \<Longrightarrow> frame st st1 \<and> w = die_status h"
  "open_files_body h s i x st \<noteq> Fault"
  by (auto simp: open_files_body_def Let_def frame_def split_beta redirect_cases split: if_splits)

lemma frame_loop:
  "(open_files_loop h s js x st = Ret y st1 \<longrightarrow> frame st st1) \<and>
   (open_files_loop h s js x st = Halt w st1 \<longrightarrow> frame st st1 \<and> w = die_status h) \<and>
   open_files_loop h s js x st \<noteq> Fault"
proof (induction js arbitrary: x st)
  case Nil
  show ?case by simp
next
  case (Cons j js)
  show ?case
  proof (cases "open_files_body h s j x st")
    case (Ret z st2)
    then have "frame st st2" by (rule frame_body(1))
    with Cons [of z st2] Ret show ?thesis
      by (auto intro: frame_trans)
  next
    case (Halt v st2)
    with frame_body(2) [of h s j x st v st2] show ?thesis by auto
  next
    case Fault
    with frame_body(3) [of h s j x st] show ?thesis by simp
  qed
qed

lemma frame_open_files:
  "open_files h s st = Ret saved st1 \<Longrightarrow> frame st st1"
  "open_files h s st = Halt w st1 \<Longrightarrow> frame st st1 \<and> w = die_status h"
  "open_files h s st \<noteq> Fault"
  using frame_loop [of h s "[0, 1, 2]" "([out s, err s, inp s], [])" st]
  by (auto simp: open_files_def split: outcome.splits)

text \<open>Without redirections \<^verbatim>\<open>open_files\<close> returns and opens nothing.\<close>

lemma open_files_plain:
  assumes "out s = None" "err s = None" "inp s = None"
  shows "\<exists>saved st1. open_files h s st = Ret saved st1 \<and> trace st1 = trace st \<and> next_id st1 = next_id st"
  using assms by (simp add: open_files_def open_files_body_def Let_def split_beta)


subsection \<open>Simple commands\<close>

lemma host0_true: "parse_command host0 (Some (leaf (simple ''true'' ps))) st = Ret 0 st"
  by (simp add: leaf_def simple_sel parse_simple_def host0_sel)

lemma host0_false: "parse_command host0 (Some (leaf (simple ''false'' ps))) st = Ret (- 1) st"
  by (simp add: leaf_def simple_sel parse_simple_def host0_sel)

lemma parse_simple_cd:
  assumes "verb s = Some v" and "get_word h (environ st) (Some v) = ''cd''"
    and "open_files h s st = Ret saved st1"
  shows "parse_simple h (Some s) st =
           Ret (if fst (shell_cd h (params s) st1) then 0 else 1)
             (fix_redirects saved (snd (shell_cd h (params s) st1)))"
  using assms by (simp add: parse_simple_def split_beta)

lemma shell_cd_none: "shell_cd h None st = (False, st)"
  by (simp add: shell_cd_def)

lemma shell_cd_parts: "next_part d \<noteq> None \<Longrightarrow> shell_cd h (Some d) st = (False, st)"
  by (simp add: shell_cd_def)

lemma shell_cd_fails:
  "next_part d = None \<Longrightarrow> chdir_to h st (string d) = None \<Longrightarrow>
   shell_cd h (Some d) st = (False, perror ''cd'' st)"
  by (simp add: shell_cd_def sys_chdir_def)

lemma shell_cd_works:
  "next_part d = None \<Longrightarrow> chdir_to h st (string d) = Some p \<Longrightarrow>
   shell_cd h (Some d) st = (True, st\<lparr>cwd := p\<rparr>)"
  by (simp add: shell_cd_def sys_chdir_def)

lemma perror_fields [simp]:
  "cwd (perror m st) = cwd st"
  "trace (perror m st) = trace st @ [EvDiag (fd_get (fds st) STDERR_FILENO) m]"
  by (simp_all add: perror_def to_stderr_def)

lemma host0_cd_tmp:
  "\<exists>st1. parse_command host0 (Some (leaf (simple ''cd'' (Some (word ''/tmp''))))) st = Ret 0 st1 \<and>
     cwd st1 = ''/tmp''"
proof -
  obtain saved st1
    where o: "open_files host0 (simple ''cd'' (Some (word ''/tmp''))) st = Ret saved st1"
    using open_files_plain [of "simple ''cd'' (Some (word ''/tmp''))" host0 st]
    by (auto simp: simple_sel)
  show ?thesis
    using parse_simple_cd [OF _ _ o, of "word ''cd''"]
    by (simp add: leaf_def simple_sel host0_sel shell_cd_works [where p = "''/tmp''"])
qed

subsection \<open>Children and waiting\<close>

lemma pipe_fields [simp]:
  "zombies (snd (snd (sys_pipe st))) = zombies st" "nforks (snd (snd (sys_pipe st))) = nforks st"
  "cwd (snd (snd (sys_pipe st))) = cwd st" "trace (snd (snd (sys_pipe st))) = trace st"
  by (simp_all add: sys_pipe_def Let_def)

lemma after_child_fields [simp]:
  "zombies (after_child st w c) = zombies st @ [(nforks st, w)]"
  "nforks (after_child st w c) = Suc (nforks st)"
  "trace (after_child st w c) = trace c" "cwd (after_child st w c) = cwd st"
  "fds (after_child st w c) = fds st" "environ (after_child st w c) = environ st"
  by (simp_all add: after_child_def)

lemma child_of_fields [simp]:
  "zombies (child_of st) = []" "nforks (child_of st) = 0"
  "trace (child_of st) = trace st @ [EvFork]" "cwd (child_of st) = cwd st"
  "fds (child_of st) = fds st" "environ (child_of st) = environ st"
  by (simp_all add: child_of_def)

lemma map_of_fresh: "list_all (\<lambda>z. fst z < (n::nat)) zs \<Longrightarrow> n \<le> m \<Longrightarrow> map_of zs m = None"
  by (induction zs) auto

lemma filter_fresh: "list_all (\<lambda>z. fst z < (n::nat)) zs \<Longrightarrow> n \<le> m \<Longrightarrow> filter (\<lambda>z. fst z \<noteq> m) zs = zs"
  by (induction zs) auto

lemma pipe_parent_status:
  assumes "zombies st = zs @ [(n, w1), (Suc n, w2)]" and "list_all (\<lambda>z. fst z < n) zs"
  shows "fst (pipe_parent fd0 fd1 n (Suc n) st) = (WEXITSTATUS w2 = 0)"
proof -
  let ?s1 = "sys_close fd1 (sys_close fd0 st)"
  have m1: "map_of (zombies st) n = Some w1"
    using assms(2) by (simp add: assms(1) map_add_def map_of_fresh)
  have f1: "filter (\<lambda>z. fst z \<noteq> n) (zombies st) = zs @ [(Suc n, w2)]"
    using assms(2) by (simp add: assms(1) filter_fresh)
  have w1: "sys_waitpid n (WExit 0) ?s1 =
      (w1, ?s1\<lparr>zombies := zs @ [(Suc n, w2)], trace := trace ?s1 @ [EvWait n w1]\<rparr>)"
    by (simp add: sys_waitpid_def m1 f1)
  have w2: "fst (sys_waitpid (Suc n) w1
      (?s1\<lparr>zombies := zs @ [(Suc n, w2)], trace := trace ?s1 @ [EvWait n w1]\<rparr>)) = w2"
    using assms(2) by (simp add: sys_waitpid_def map_add_def map_of_fresh)
  show ?thesis
    using w2 by (simp add: pipe_parent_def Let_def w1 split_beta)
qed

lemma pipe_result:
  assumes "pipe_downstream h a st = Some c"
    and "child_end (parse_command h b c) = Some (w2, e2)"
    and "list_all (\<lambda>z. fst z < nforks st) (zombies st)"
  shows "result (parse_command h (Some (Command a b OP_PIPE sp)) st) =
           Some (if WEXITSTATUS w2 = 0 then 0 else 1)"
proof -
  obtain fd0 fd1 st0 where p: "sys_pipe st = (fd0, fd1, st0)"
    by (cases "sys_pipe st") auto
  have z0: "zombies st0 = zombies st" "nforks st0 = nforks st"
    using pipe_fields(1,2) [of st] by (simp_all add: p)
  from assms(1) have cp: "can_pipe h st" and cf: "can_fork h st0"
    by (auto simp: pipe_downstream_def p split: if_splits)
  from assms(1) cp cf obtain w1 e1
    where a: "child_end (parse_command h a (pipe_writer fd0 fd1 (child_of st0))) = Some (w1, e1)"
      and cf1: "can_fork h (after_child st0 w1 e1)"
      and c: "c = pipe_reader fd0 fd1 (child_of (after_child st0 w1 e1))"
    by (auto simp: pipe_downstream_def p split: if_splits option.splits)
  have b: "b \<noteq> None" using assms(2) by (cases b) auto
  let ?st2 = "after_child (after_child st0 w1 e1) w2 e2"
  have "zombies ?st2 = zombies st @ [(nforks st, w1), (Suc (nforks st), w2)]"
    by (simp add: z0)
  then have s: "fst (pipe_parent fd0 fd1 (nforks st) (Suc (nforks st)) ?st2) = (WEXITSTATUS w2 = 0)"
    using assms(3) by (rule pipe_parent_status)
  have "run_on_pipe h a b st =
      Ret (fst (pipe_parent fd0 fd1 (nforks st) (Suc (nforks st)) ?st2))
        (snd (pipe_parent fd0 fd1 (nforks st) (Suc (nforks st)) ?st2))"
    using cp cf cf1 a assms(2) by (simp add: p c [symmetric] z0 split_beta Let_def)
  then show ?thesis
    using b by (simp add: s negate_def)
qed


lemma exit_of_status [simp]:
  "WEXITSTATUS (exit_of rc) = (if rc < 0 then 1 else 0)" "WIFEXITED (exit_of rc)"
  by (simp_all add: exit_of_def EXIT_FAILURE_def EXIT_SUCCESS_def)

lemma pipe_downstream_fresh: "pipe_downstream h a st = Some c \<Longrightarrow> zombies c = [] \<and> nforks c = 0"
  by (auto simp: pipe_downstream_def pipe_reader_def Let_def split_beta
      split: if_splits option.splits)

lemma host0_downstream: "\<exists>c. pipe_downstream host0 (Some (leaf (simple ''true'' ps))) st = Some c"
  by (simp add: pipe_downstream_def host0_sel host0_true split_beta)

lemma sys_wait_single:
  "zombies st = [(p, w)] \<Longrightarrow>
   sys_wait h status st = (w, st\<lparr>zombies := [], trace := trace st @ [EvWait p w]\<rparr>)"
  by (simp add: sys_wait_def)

lemma run_external_status:
  assumes "can_fork h st" and "exec_child h s cmd (child_of st) = Some (w, c)"
    and "zombies st = []"
  shows "result (run_external h s cmd st) = Some (WEXITSTATUS w)"
proof -
  have "zombies (after_child st w c) = [(nforks st, w)]"
    using assms(3) by simp
  then show ?thesis
    using assms(1,2) by (simp add: run_external_def sys_wait_single)
qed

lemma host0_exec_grep:
  assumes "out s = None" "err s = None" "inp s = None"
  shows "\<exists>c1. exec_child host0 s ''grep'' c = Some (WExit 1, c1)"
proof -
  obtain saved c1 where "open_files host0 s c = Ret saved c1"
    using open_files_plain [OF assms, of host0 c] by blast
  then show ?thesis
    by (simp add: exec_child_def host0_sel)
qed

lemma host0_grep:
  assumes "zombies st = []"
  shows "result (parse_command host0 (Some (leaf (simple ''grep'' ps))) st) = Some 1"
proof -
  obtain c1 where e: "exec_child host0 (simple ''grep'' ps) ''grep'' (child_of st) = Some (WExit 1, c1)"
    using host0_exec_grep [of "simple ''grep'' ps" "child_of st"] by (auto simp: simple_sel)
  have "result (run_external host0 (simple ''grep'' ps) ''grep'' st) = Some (WEXITSTATUS (WExit 1))"
    using e assms by (intro run_external_status) (simp_all add: host0_sel)
  then show ?thesis
    by (simp add: leaf_def parse_simple_def simple_sel host0_sel Let_def)
qed

lemma wait_children_two:
  assumes "zombies st = [(p1, w1), (p2, w2)]"
  shows "fst (wait_children h 2 status st) = (WIFEXITED w1 \<and> WIFEXITED w2)"
    and "trace (snd (wait_children h 2 status st)) =
           trace st @
           (if even (wait_pick h st)
            then EvWait p1 w1 # (if WIFEXITED w1 then [EvWait p2 w2] else [])
            else EvWait p2 w2 # (if WIFEXITED w2 then [EvWait p1 w1] else []))"
    and "WIFEXITED w1 \<Longrightarrow> WIFEXITED w2 \<Longrightarrow> zombies (snd (wait_children h 2 status st)) = []"
proof -
  have two: "wait_children h 2 status st = wait_children h (Suc (Suc 0)) status st"
    by (simp add: numeral_2_eq_2)
  have k: "wait_pick h st mod Suc (Suc 0) = (if even (wait_pick h st) then 0 else Suc 0)"
    by presburger
  show "fst (wait_children h 2 status st) = (WIFEXITED w1 \<and> WIFEXITED w2)"
    by (auto simp: two sys_wait_def assms k Let_def sys_wait_single)
  show "trace (snd (wait_children h 2 status st)) =
           trace st @
           (if even (wait_pick h st)
            then EvWait p1 w1 # (if WIFEXITED w1 then [EvWait p2 w2] else [])
            else EvWait p2 w2 # (if WIFEXITED w2 then [EvWait p1 w1] else []))"
    by (auto simp: two sys_wait_def assms k Let_def sys_wait_single)
  show "WIFEXITED w1 \<Longrightarrow> WIFEXITED w2 \<Longrightarrow> zombies (snd (wait_children h 2 status st)) = []"
    by (auto simp: two sys_wait_def assms k Let_def sys_wait_single)
qed

lemma parallel_outcome:
  assumes "can_fork h st"
    and "child_end (parse_command h a (child_of st)) = Some (w1, e1)"
    and "can_fork h (after_child st w1 e1)"
    and "child_end (parse_command h b (child_of (after_child st w1 e1))) = Some (w2, e2)"
  shows "parse_command h (Some (Command a b OP_PARALLEL sp)) st =
           Ret (negate (fst (wait_children h 2 (WExit 0) (after_child (after_child st w1 e1) w2 e2))))
             (snd (wait_children h 2 (WExit 0) (after_child (after_child st w1 e1) w2 e2)))"
proof -
  obtain c where "a = Some c" using assms(2) by (cases a) auto
  with assms show ?thesis
    by (simp add: Let_def split_beta del: wait_children.simps)
qed

lemma host1_sel:
  "get_word host1 env w = plain_word w" "can_fork host1 st"
  "wait_pick host1 st = length (zombies st) - 1"
  by (simp_all add: host1_def host0_def)

lemma host1_true: "parse_command host1 (Some (leaf (simple ''true'' ps))) st = Ret 0 st"
  by (simp add: leaf_def simple_sel parse_simple_def host1_sel)

subsection \<open>The descriptor table\<close>

lemma fd_free_nth: "fd_free t < length t \<Longrightarrow> t ! fd_free t = None"
  by (induction t rule: fd_free.induct) simp_all

lemma fd_free_empty: "fd_get t (int (fd_free t)) = None"
  by (simp add: fd_get_def fd_free_nth)

lemma fd_get_put: "fd_get (fd_put t n d) k = (if k = int n then Some d else fd_get t k)"
  by (auto simp: fd_get_def fd_put_def nth_append nth_list_update)

lemma fd_get_clear: "fd_get (t[n := None]) k = (if k = int n then None else fd_get t k)"
  by (auto simp: fd_get_def nth_list_update)

lemma dup_keep:
  "fd_get (fds st) k \<noteq> None \<Longrightarrow> fd_get (fds (snd (sys_dup fd st))) k = fd_get (fds st) k"
  using fd_free_empty [of "fds st"]
  by (auto simp: sys_dup_def fd_get_put split: option.split)

lemma open_keep:
  "fd_get (fds st) k \<noteq> None \<Longrightarrow> fd_get (fds (snd (sys_open h p fl st))) k = fd_get (fds st) k"
  using fd_free_empty [of "fds st"]
  by (auto simp: sys_open_def fd_get_put)

lemma open_new:
  "can_open h st p fl \<Longrightarrow>
   0 \<le> fst (sys_open h p fl st) \<and>
   fd_get (fds st) (fst (sys_open h p fl st)) = None \<and>
   fd_get (fds (snd (sys_open h p fl st))) (fst (sys_open h p fl st)) = Some (OpenFile (next_id st) p fl)"
  using fd_free_empty [of "fds st"]
  by (simp add: sys_open_def fd_get_put)

lemma open_refused: "\<not> can_open h st p fl \<Longrightarrow> fst (sys_open h p fl st) = - 1"
  by (simp add: sys_open_def)

lemma dup2_set:
  "fd_get (fds st) a = Some d \<Longrightarrow> 0 \<le> b \<Longrightarrow> fd_get (fds (sys_dup2 a b st)) b = Some d"
  by (simp add: sys_dup2_def fd_get_put)

lemma dup2_keep: "k \<noteq> b \<Longrightarrow> fd_get (fds (sys_dup2 a b st)) k = fd_get (fds st) k"
  by (auto simp: sys_dup2_def fd_get_put split: option.split)

lemma close_keep: "k \<noteq> a \<Longrightarrow> fd_get (fds (sys_close a st)) k = fd_get (fds st) k"
  by (auto simp: sys_close_def fd_get_clear fd_get_def split: option.split)


lemma body_skip:
  assumes "redir ! i = None"
  shows "\<exists>x st1. open_files_body h s i (redir, saves) st = Ret (redir, saves @ [x]) st1 \<and>
           trace st1 = trace st \<and> environ st1 = environ st \<and> next_id st1 = next_id st \<and>
           (\<forall>k. fd_get (fds st) k \<noteq> None \<longrightarrow> fd_get (fds st1) k = fd_get (fds st) k)"
  using assms by (simp add: open_files_body_def split_beta dup_keep)

lemma body_combined:
  assumes "get_word h (environ st) (Some wo) = get_word h (environ st) (Some we)"
  shows "case open_files_body h s 0 ([Some wo, Some we, r], []) st of
           Ret y st1 \<Rightarrow>
             (\<exists>x. y = ([Some wo, None, r], [x])) \<and>
             trace st1 = trace st @
               [EvOpen (get_word h (environ st) (Some wo)) {O_CREAT, O_WRONLY, O_APPEND, O_TRUNC}] \<and>
             environ st1 = environ st \<and>
             (fd_get (fds st) 0 \<noteq> None \<and> fd_get (fds st) 1 \<noteq> None \<and> fd_get (fds st) 2 \<noteq> None \<longrightarrow>
              fd_get (fds st1) 0 \<noteq> None \<and>
              fd_get (fds st1) 1 = Some (OpenFile (next_id st) (get_word h (environ st) (Some wo))
                {O_CREAT, O_WRONLY, O_APPEND, O_TRUNC}) \<and>
              fd_get (fds st1) 2 = Some (OpenFile (next_id st) (get_word h (environ st) (Some wo))
                {O_CREAT, O_WRONLY, O_APPEND, O_TRUNC}))
         | Halt w st1 \<Rightarrow>
             trace st1 = trace st @
               [EvOpen (get_word h (environ st) (Some wo)) {O_CREAT, O_WRONLY, O_APPEND, O_TRUNC}]
         | Fault \<Rightarrow> False"
proof -
  let ?p = "get_word h (environ st) (Some wo)"
  let ?F = "{O_CREAT, O_WRONLY, O_APPEND, O_TRUNC}"
  let ?s1 = "snd (sys_dup 1 st)"
  let ?o = "sys_open h ?p ?F ?s1"
  let ?s3 = "sys_dup2 (fst ?o) 2 (snd ?o)"
  have fl: "insert O_TRUNC (insert O_APPEND (flags ! 0)) = ?F"
    by (auto simp: flags_def)
  have body: "open_files_body h s 0 ([Some wo, Some we, r], []) st =
      redirect h (fst ?o) 0 ([Some wo, None, r], [fst (sys_dup 1 st)]) ?s3"
    using assms(1)
    by (simp add: open_files_body_def split_beta Let_def fl outs_def STDOUT_FILENO_def STDERR_FILENO_def)
  show ?thesis
  proof (cases "can_open h ?s1 ?p ?F")
    case False
    then have "fst ?o = - 1" by (rule open_refused)
    then show ?thesis
      by (simp add: body redirect_def die_def sys_dup2_def fd_get_def sys_open_def False)
  next
    case True
    note n = open_new [OF True]
    from n have ge: "0 \<le> fst ?o" by simp
    let ?D = "OpenFile (next_id st) ?p ?F"
    let ?s4 = "sys_dup2 (fst ?o) 1 ?s3"
    let ?s5 = "sys_close (fst ?o) ?s4"
    have r: "redirect h (fst ?o) 0 ([Some wo, None, r], [fst (sys_dup 1 st)]) ?s3 =
        Ret ([Some wo, None, r], [fst (sys_dup 1 st)]) ?s5"
      using ge by (simp add: redirect_def outs_def STDOUT_FILENO_def)
    have "fd_get (fds ?s5) 0 \<noteq> None \<and> fd_get (fds ?s5) 1 = Some ?D \<and> fd_get (fds ?s5) 2 = Some ?D"
      if std: "fd_get (fds st) 0 \<noteq> None \<and> fd_get (fds st) 1 \<noteq> None \<and> fd_get (fds st) 2 \<noteq> None"
    proof -
      have k1: "fd_get (fds ?s1) 0 \<noteq> None" "fd_get (fds ?s1) 1 \<noteq> None" "fd_get (fds ?s1) 2 \<noteq> None"
        using std by (simp_all add: dup_keep)
      from n k1 have ne: "fst ?o \<noteq> 0" "fst ?o \<noteq> 1" "fst ?o \<noteq> 2" by auto
      have d: "fd_get (fds (snd ?o)) (fst ?o) = Some ?D" using n by simp
      have a3: "fd_get (fds ?s3) 2 = Some ?D" using d by (simp add: dup2_set)
      have b3: "fd_get (fds ?s3) (fst ?o) = Some ?D" using d ne by (simp add: dup2_keep)
      have c3: "fd_get (fds ?s3) 0 \<noteq> None" using k1 ne by (simp add: dup2_keep open_keep)
      have a4: "fd_get (fds ?s4) 1 = Some ?D" using b3 by (simp add: dup2_set)
      have b4: "fd_get (fds ?s4) 2 = Some ?D" using a3 by (simp add: dup2_keep)
      have c4: "fd_get (fds ?s4) 0 \<noteq> None" using c3 by (simp add: dup2_keep)
      show ?thesis
        using a4 b4 c4 ne by (simp add: close_keep)
    qed
    then show ?thesis
      by (simp add: body r)
  qed
qed

lemma body_input:
  assumes "redir ! 2 = Some wi"
  shows "case open_files_body h s 2 (redir, saves) st of
           Ret y st1 \<Rightarrow>
             trace st1 = trace st @
               [EvOpen (get_word h (environ st) (Some wi)) {O_CREAT, O_RDONLY, O_APPEND}] \<and>
             (\<forall>k. k \<noteq> 0 \<and> fd_get (fds st) k \<noteq> None \<longrightarrow> fd_get (fds st1) k = fd_get (fds st) k)
         | Halt w st1 \<Rightarrow>
             trace st1 = trace st @
               [EvOpen (get_word h (environ st) (Some wi)) {O_CREAT, O_RDONLY, O_APPEND}]
         | Fault \<Rightarrow> False"
proof -
  let ?p = "get_word h (environ st) (Some wi)"
  let ?F = "{O_CREAT, O_RDONLY, O_APPEND}"
  let ?s1 = "snd (sys_dup 0 st)"
  let ?o = "sys_open h ?p ?F ?s1"
  have fl: "insert O_APPEND (flags ! 2) = ?F"
    by (auto simp: flags_def)
  have body: "open_files_body h s 2 (redir, saves) st =
      redirect h (fst ?o) 2 (redir, saves @ [fst (sys_dup 0 st)]) (snd ?o)"
    using assms
    by (simp add: open_files_body_def split_beta Let_def fl outs_def STDIN_FILENO_def)
  show ?thesis
  proof (cases "can_open h ?s1 ?p ?F")
    case False
    then have "fst ?o = - 1" by (rule open_refused)
    then show ?thesis
      by (simp add: body redirect_def die_def sys_open_def False)
  next
    case True
    note n = open_new [OF True]
    from n have ge: "0 \<le> fst ?o" by simp
    have keep: "fd_get (fds (sys_close (fst ?o) (sys_dup2 (fst ?o) 0 (snd ?o)))) k = fd_get (fds st) k"
      if "k \<noteq> 0" "fd_get (fds st) k \<noteq> None" for k
    proof -
      have k1: "fd_get (fds ?s1) k = fd_get (fds st) k" using that by (simp add: dup_keep)
      with n that have ne: "k \<noteq> fst ?o" by auto
      show ?thesis
        using that k1 ne by (simp add: close_keep dup2_keep open_keep)
    qed
    have "redirect h (fst ?o) 2 (redir, saves @ [fst (sys_dup 0 st)]) (snd ?o) =
        Ret (redir, saves @ [fst (sys_dup 0 st)]) (sys_close (fst ?o) (sys_dup2 (fst ?o) 0 (snd ?o)))"
      using ge by (simp add: redirect_def outs_def STDIN_FILENO_def)
    then show ?thesis
      using keep by (simp add: body)
  qed
qed

lemma both_to_returns:
  "result (open_files host0 (both_to ''f'' (simple ''cd'' None)) state0) = Some [3, 4, 5]"
  by (simp add: open_files_def open_files_body_def both_to_def simple_def state0_def host0_sel
      sys_dup_def sys_dup2_def sys_close_def sys_open_def fd_get_def fd_put_def outs_def flags_def
      redirect_def STDIN_FILENO_def STDOUT_FILENO_def STDERR_FILENO_def Let_def)

subsection \<open>No null dereference in a well-formed tree\<close>

lemma fine_simps [simp]:
  "fine h (Ret a st)" "fine h (Halt w st) = (w = die_status h \<and> refused_call h st)" "\<not> fine h Fault"
  by (simp_all add: fine_def)


















section \<open>The claims\<close>

text \<open>
  C1, at the input \<open>false ; cd /tmp\<close>: the sequence runs both commands (the working
  directory ends as \<open>/tmp\<close> although \<open>false\<close> failed), the right-hand command alone
  returns 0, and the sequence returns -1: the status of the right-hand command is lost.
  So it is at \<open>true ; true\<close>, and whenever a sequence returns, it returns -1.
\<close>

theorem sequential_status_lost:
  "result (parse_command host0 (Some (node OP_SEQUENTIAL (leaf (simple ''false'' None))
       (leaf (simple ''cd'' (Some (word ''/tmp'')))))) state0) = Some (- 1) \<and>
   map_option cwd (final (parse_command host0 (Some (node OP_SEQUENTIAL (leaf (simple ''false'' None))
       (leaf (simple ''cd'' (Some (word ''/tmp'')))))) state0)) = Some ''/tmp'' \<and>
   result (parse_command host0 (Some (leaf (simple ''cd'' (Some (word ''/tmp''))))) state0) = Some 0 \<and>
   parse_command host0 (Some (node OP_SEQUENTIAL (leaf (simple ''true'' None))
       (leaf (simple ''true'' None)))) state0 = Ret (- 1) state0 \<and>
   (result (parse_command h (Some (Command (Some a) (Some b) OP_SEQUENTIAL sp)) st) = None \<or>
    result (parse_command h (Some (Command (Some a) (Some b) OP_SEQUENTIAL sp)) st) = Some (- 1))"
proof -
  obtain st1
    where "parse_command host0 (Some (leaf (simple ''cd'' (Some (word ''/tmp''))))) state0 = Ret 0 st1"
      and "cwd st1 = ''/tmp''"
    using host0_cd_tmp [of state0] by blast
  then have "result (parse_command host0 (Some (node OP_SEQUENTIAL (leaf (simple ''false'' None))
       (leaf (simple ''cd'' (Some (word ''/tmp'')))))) state0) = Some (- 1) \<and>
   map_option cwd (final (parse_command host0 (Some (node OP_SEQUENTIAL (leaf (simple ''false'' None))
       (leaf (simple ''cd'' (Some (word ''/tmp'')))))) state0)) = Some ''/tmp'' \<and>
   result (parse_command host0 (Some (leaf (simple ''cd'' (Some (word ''/tmp''))))) state0) = Some 0 \<and>
   parse_command host0 (Some (node OP_SEQUENTIAL (leaf (simple ''true'' None))
       (leaf (simple ''true'' None)))) state0 = Ret (- 1) state0"
    by (simp add: node_def host0_false host0_true)
  moreover have "result (parse_command h (Some (Command (Some a) (Some b) OP_SEQUENTIAL sp)) st) = None \<or>
    result (parse_command h (Some (Command (Some a) (Some b) OP_SEQUENTIAL sp)) st) = Some (- 1)"
    by (simp split: outcome.split)
  ultimately show ?thesis by blast
qed

text \<open>
  C2, at the inputs \<open>true || cd /tmp\<close> and \<open>false || true\<close>: in the first the
  right-hand command is not run (the state is unchanged) and the node returns -1, not 0;
  in the second the right-hand command runs and returns 0, and the node returns -1.
  Whenever such a node returns, it returns -1.
\<close>

theorem conditional_status_lost:
  "parse_command host0 (Some (node OP_CONDITIONAL_NZERO (leaf (simple ''true'' None))
       (leaf (simple ''cd'' (Some (word ''/tmp'')))))) state0 = Ret (- 1) state0 \<and>
   parse_command host0 (Some (node OP_CONDITIONAL_NZERO (leaf (simple ''false'' None))
       (leaf (simple ''true'' None)))) state0 = Ret (- 1) state0 \<and>
   parse_command host0 (Some (leaf (simple ''true'' None))) state0 = Ret 0 state0 \<and>
   (result (parse_command h (Some (Command (Some a) (Some b) OP_CONDITIONAL_NZERO sp)) st) = None \<or>
    result (parse_command h (Some (Command (Some a) (Some b) OP_CONDITIONAL_NZERO sp)) st) = Some (- 1))"
proof -
  have "result (parse_command h (Some (Command (Some a) (Some b) OP_CONDITIONAL_NZERO sp)) st) = None \<or>
    result (parse_command h (Some (Command (Some a) (Some b) OP_CONDITIONAL_NZERO sp)) st) = Some (- 1)"
    by (simp split: outcome.split)
  then show ?thesis
    by (simp add: node_def host0_false host0_true)
qed

text \<open>
  C3, as the code has it. When the pipe and both children could be created, \<open>c\<close> is
  the state in which the downstream child starts the right-hand subtree \<open>b\<close>, and the
  children still to be collected were created by this process: the status of the pipe
  is 0 when the exit code in the termination status \<open>w\<close> of the downstream child is 0,
  and 1 otherwise, whatever the upstream child did; and since that child exits with
  \<^verbatim>\<open>EXIT_FAILURE\<close> for a negative status of \<open>b\<close> and \<^verbatim>\<open>EXIT_SUCCESS\<close> otherwise,
  the pipe returns 1 when \<open>b\<close> returns a negative status there and 0 when it returns any
  other status.
\<close>

theorem pipe_status:
  assumes "pipe_downstream h a st = Some c"
    and "list_all (\<lambda>z. fst z < nforks st) (zombies st)"
  shows "(\<forall>w e. child_end (parse_command h b c) = Some (w, e) \<longrightarrow>
            result (parse_command h (Some (Command a b OP_PIPE sp)) st) =
              Some (if WEXITSTATUS w = 0 then 0 else 1)) \<and>
         (\<forall>rc e. parse_command h b c = Ret rc e \<longrightarrow>
            result (parse_command h (Some (Command a b OP_PIPE sp)) st) =
              Some (if rc < 0 then 1 else 0))"
proof (intro conjI allI impI)
  fix w e
  assume "child_end (parse_command h b c) = Some (w, e)"
  from pipe_result [OF assms(1) this assms(2)]
  show "result (parse_command h (Some (Command a b OP_PIPE sp)) st) =
      Some (if WEXITSTATUS w = 0 then 0 else 1)" .
next
  fix rc e
  assume "parse_command h b c = Ret rc e"
  then have "child_end (parse_command h b c) = Some (exit_of rc, e)" by simp
  from pipe_result [OF assms(1) this assms(2), of sp]
  show "result (parse_command h (Some (Command a b OP_PIPE sp)) st) = Some (if rc < 0 then 1 else 0)"
    by simp
qed

theorem pipe_status_witness:
  "result (parse_command host0 (Some (node OP_PIPE (leaf (simple ''true'' None))
      (leaf (simple ''false'' None)))) state0) = Some 1"
proof -
  obtain c where c: "pipe_downstream host0 (Some (leaf (simple ''true'' None))) state0 = Some c"
    using host0_downstream by blast
  have z: "list_all (\<lambda>z. fst z < nforks state0) (zombies state0)"
    by (simp add: state0_def)
  show ?thesis
    using pipe_status [OF c z, of "Some (leaf (simple ''false'' None))" None]
    by (simp add: host0_false node_def)
qed

text \<open>
  C3 as stated fails: in \<open>true | grep\<close>, where \<open>grep\<close> exits with code 1, the
  right-hand command returns 1, alone and in the downstream child, and the pipe returns 0.
\<close>

theorem pipe_hides_failure:
  "result (parse_command host0 (Some (node OP_PIPE (leaf (simple ''true'' None))
      (leaf (simple ''grep'' None)))) state0) = Some 0 \<and>
   result (parse_command host0 (Some (leaf (simple ''grep'' None))) state0) = Some 1 \<and>
   map_option (\<lambda>c. result (parse_command host0 (Some (leaf (simple ''grep'' None))) c))
     (pipe_downstream host0 (Some (leaf (simple ''true'' None))) state0) = Some (Some 1)"
proof -
  obtain c where c: "pipe_downstream host0 (Some (leaf (simple ''true'' None))) state0 = Some c"
    using host0_downstream by blast
  have zc: "zombies c = []" using pipe_downstream_fresh [OF c] by simp
  have z: "list_all (\<lambda>z. fst z < nforks state0) (zombies state0)"
    by (simp add: state0_def)
  have g: "result (parse_command host0 (Some (leaf (simple ''grep'' None))) c) = Some 1"
    using zc by (rule host0_grep)
  then obtain e where "parse_command host0 (Some (leaf (simple ''grep'' None))) c = Ret 1 e"
    by (cases "parse_command host0 (Some (leaf (simple ''grep'' None))) c") auto
  then have "child_end (parse_command host0 (Some (leaf (simple ''grep'' None))) c) = Some (exit_of 1, e)"
    by simp
  from pipe_result [OF c this z, of None]
  have "result (parse_command host0 (Some (node OP_PIPE (leaf (simple ''true'' None))
      (leaf (simple ''grep'' None)))) state0) = Some 0"
    by (simp add: node_def)
  moreover have "result (parse_command host0 (Some (leaf (simple ''grep'' None))) state0) = Some 1"
    by (rule host0_grep) (simp add: state0_def)
  ultimately show ?thesis
    using g by (simp add: c)
qed

text \<open>
  C4, as the code has it. For a parallel node entered with no child left to collect,
  whose two children could be created and ended with the statuses \<open>w1\<close> and \<open>w2\<close>:
  the node returns 0 when both children ended by \<^verbatim>\<open>exit\<close> and 1 otherwise; and a child
  whose subtree returns the status \<open>rc\<close> ends by \<^verbatim>\<open>exit\<close>, with \<^verbatim>\<open>EXIT_FAILURE\<close>
  when \<open>rc\<close> is negative and \<^verbatim>\<open>EXIT_SUCCESS\<close> otherwise.
\<close>

theorem parallel_status:
  assumes "zombies st = []" and "can_fork h st"
    and "child_end (parse_command h a (child_of st)) = Some (w1, e1)"
    and "can_fork h (after_child st w1 e1)"
    and "child_end (parse_command h b (child_of (after_child st w1 e1))) = Some (w2, e2)"
  shows "result (parse_command h (Some (Command a b OP_PARALLEL sp)) st) =
           Some (if WIFEXITED w1 \<and> WIFEXITED w2 then 0 else 1) \<and>
         (\<forall>rc e. parse_command h a (child_of st) = Ret rc e \<longrightarrow>
            w1 = WExit (if rc < 0 then EXIT_FAILURE else EXIT_SUCCESS) \<and> WIFEXITED w1) \<and>
         (\<forall>rc e. parse_command h b (child_of (after_child st w1 e1)) = Ret rc e \<longrightarrow>
            w2 = WExit (if rc < 0 then EXIT_FAILURE else EXIT_SUCCESS) \<and> WIFEXITED w2)"
proof -
  have z: "zombies (after_child (after_child st w1 e1) w2 e2) =
      [(nforks st, w1), (Suc (nforks st), w2)]"
    using assms(1) by simp
  have "result (parse_command h (Some (Command a b OP_PARALLEL sp)) st) =
           Some (if WIFEXITED w1 \<and> WIFEXITED w2 then 0 else 1)"
    unfolding parallel_outcome [OF assms(2-5)]
    by (simp add: wait_children_two(1) [OF z] negate_def del: wait_children.simps)
  then show ?thesis
    using assms(3,5) by (auto simp: exit_of_def)
qed

theorem parallel_status_witness:
  "result (parse_command host0 (Some (node OP_PARALLEL (leaf (simple ''true'' None))
      (leaf (simple ''true'' None)))) state0) = Some 0"
proof -
  have z: "zombies state0 = []" by (simp add: state0_def)
  have f: "can_fork host0 st" for st by (simp add: host0_sel)
  have c: "child_end (parse_command host0 (Some (leaf (simple ''true'' None))) st)
      = Some (WExit EXIT_SUCCESS, st)" for st
    by (simp add: host0_true exit_of_def)
  show ?thesis
    using parallel_status [OF z f c f c, of None]
    by (simp add: node_def)
qed

text \<open>
  C4 as stated fails: in \<open>false & true\<close> the first subtree returns -1 in its child,
  and the parallel node returns 0.
\<close>

theorem parallel_hides_failure:
  "result (parse_command host0 (Some (node OP_PARALLEL (leaf (simple ''false'' None))
      (leaf (simple ''true'' None)))) state0) = Some 0 \<and>
   result (parse_command host0 (Some (leaf (simple ''false'' None))) (child_of state0)) = Some (- 1)"
proof -
  have z: "zombies (after_child (after_child state0 (WExit EXIT_FAILURE) (child_of state0)) (WExit EXIT_SUCCESS)
      (child_of (after_child state0 (WExit EXIT_FAILURE) (child_of state0)))) = [(0, WExit EXIT_FAILURE), (1, WExit EXIT_SUCCESS)]"
    by (simp add: state0_def)
  have p: "parse_command host0 (Some (Command (Some (leaf (simple ''false'' None)))
      (Some (leaf (simple ''true'' None))) OP_PARALLEL None)) state0 =
      Ret (negate (fst (wait_children host0 2 (WExit 0)
        (after_child (after_child state0 (WExit EXIT_FAILURE) (child_of state0)) (WExit EXIT_SUCCESS)
          (child_of (after_child state0 (WExit EXIT_FAILURE) (child_of state0)))))))
       (snd (wait_children host0 2 (WExit 0)
        (after_child (after_child state0 (WExit EXIT_FAILURE) (child_of state0)) (WExit EXIT_SUCCESS)
          (child_of (after_child state0 (WExit EXIT_FAILURE) (child_of state0))))))"
    by (rule parallel_outcome) (simp_all add: host0_sel host0_false host0_true exit_of_def)
  show ?thesis
    unfolding node_def p
    by (simp add: wait_children_two(1) [OF z] negate_def host0_false del: wait_children.simps)
qed

text \<open>
  C5, as the code has it: a leaf whose verb is \<open>true\<close> returns 0 and a leaf whose verb is
  \<open>false\<close> returns -1; in both cases the state is unchanged, so no process is created
  and nothing else is done.
\<close>

theorem boolean_literals:
  assumes "verb s = Some v"
  shows "(get_word h (environ st) (Some v) = ''true'' \<longrightarrow>
            parse_command h (Some (Command c1 c2 OP_NONE (Some s))) st = Ret 0 st) \<and>
         (get_word h (environ st) (Some v) = ''false'' \<longrightarrow>
            parse_command h (Some (Command c1 c2 OP_NONE (Some s))) st = Ret (- 1) st)"
  using assms by (simp add: parse_simple_def)

theorem boolean_literals_witness:
  "parse_command host0 (Some (leaf (simple ''true'' None))) state0 = Ret 0 state0 \<and>
   parse_command host0 (Some (leaf (simple ''false'' None))) state0 = Ret (- 1) state0"
  using boolean_literals [of "simple ''true'' None" "word ''true''" host0 state0 None None]
    boolean_literals [of "simple ''false'' None" "word ''false''" host0 state0 None None]
  by (simp add: simple_sel host0_sel leaf_def)

text \<open>C5 as stated fails: the leaf \<open>false\<close> does not return 1.\<close>

theorem false_is_not_one:
  "result (parse_command host0 (Some (leaf (simple ''false'' None))) state0) \<noteq> Some 1"
  by (simp add: host0_false)

text \<open>
  C6, as the code has it. For a command whose verb is \<open>cd\<close> and whose redirections were
  set up (\<open>st1\<close> is the state after \<^verbatim>\<open>open_files\<close>): with no argument, or with a first
  argument of several parts, it returns 1, leaves the working directory, and emits
  nothing; when \<^verbatim>\<open>chdir\<close> to the first argument fails, it returns 1, leaves the working
  directory, and \<^verbatim>\<open>perror\<close> writes one diagnostic to what descriptor 2 refers to.
\<close>

theorem cd_failures:
  assumes "verb s = Some v" and "get_word h (environ st) (Some v) = ''cd''"
    and "open_files h s st = Ret saved st1"
  shows "(params s = None \<or> (\<exists>d. params s = Some d \<and> next_part d \<noteq> None) \<longrightarrow>
            result (parse_simple h (Some s) st) = Some 1 \<and>
            map_option cwd (final (parse_simple h (Some s) st)) = Some (cwd st) \<and>
            map_option trace (final (parse_simple h (Some s) st)) = Some (trace st1)) \<and>
         (\<forall>d. params s = Some d \<and> next_part d = None \<and> chdir_to h st1 (string d) = None \<longrightarrow>
            result (parse_simple h (Some s) st) = Some 1 \<and>
            map_option cwd (final (parse_simple h (Some s) st)) = Some (cwd st) \<and>
            map_option trace (final (parse_simple h (Some s) st)) =
              Some (trace st1 @ [EvDiag (fd_get (fds st1) STDERR_FILENO) ''cd'']))"
proof -
  have c: "cwd st1 = cwd st"
    using frame_open_files(1) [OF assms(3)] by (simp add: frame_def)
  note eq = parse_simple_cd [OF assms]
  have a: "params s = None \<Longrightarrow> parse_simple h (Some s) st = Ret 1 (fix_redirects saved st1)"
    by (simp add: eq shell_cd_none)
  have b: "params s = Some d \<Longrightarrow> next_part d \<noteq> None \<Longrightarrow>
      parse_simple h (Some s) st = Ret 1 (fix_redirects saved st1)" for d
    by (simp add: eq shell_cd_parts)
  have f: "params s = Some d \<Longrightarrow> next_part d = None \<Longrightarrow> chdir_to h st1 (string d) = None \<Longrightarrow>
      parse_simple h (Some s) st = Ret 1 (fix_redirects saved (perror ''cd'' st1))" for d
    by (simp add: eq shell_cd_fails)
  show ?thesis
    using a b f by (auto simp: c)
qed

theorem cd_failures_witness:
  "result (parse_simple host0 (Some (simple ''cd'' None)) state0) = Some 1 \<and>
   result (parse_simple host0 (Some (simple ''cd'' (Some (word ''/nowhere'')))) state0) = Some 1 \<and>
   map_option cwd (final (parse_simple host0 (Some (simple ''cd'' (Some (word ''/nowhere'')))) state0)) = Some ''/''"
proof -
  obtain sv1 st1 where o1: "open_files host0 (simple ''cd'' (Some (word ''/nowhere''))) state0 = Ret sv1 st1"
    using open_files_plain [of "simple ''cd'' (Some (word ''/nowhere''))" host0 state0]
    by (auto simp: simple_sel)
  obtain sv2 st2 where o2: "open_files host0 (simple ''cd'' None) state0 = Ret sv2 st2"
    using open_files_plain [of "simple ''cd'' None" host0 state0]
    by (auto simp: simple_sel)
  have v: "verb (simple ''cd'' ps) = Some (word ''cd'')" for ps by (simp add: simple_sel)
  have g: "get_word host0 (environ state0) (Some (word ''cd'')) = ''cd''" by (simp add: host0_sel)
  show ?thesis
    using cd_failures [OF v g o1] cd_failures [OF v g o2]
    by (simp add: simple_sel host0_sel state0_def)
qed

text \<open>
  C6 as stated fails twice: \<open>cd /tmp /x\<close> has more than one argument and succeeds,
  changing the directory; \<open>cd\<close> without an argument fails and emits no diagnostic.
\<close>

theorem cd_extra_argument:
  "result (parse_simple host0 (Some (simple ''cd'' (Some (Word ''/tmp'' False None (Some (word ''/x''))))))
      state0) = Some 0 \<and>
   map_option cwd (final (parse_simple host0
      (Some (simple ''cd'' (Some (Word ''/tmp'' False None (Some (word ''/x'')))))) state0)) = Some ''/tmp'' \<and>
   result (parse_simple host0 (Some (simple ''cd'' None)) state0) = Some 1 \<and>
   map_option trace (final (parse_simple host0 (Some (simple ''cd'' None)) state0)) = Some []"
proof -
  obtain sv1 st1 where o1: "open_files host0 (simple ''cd'' (Some (Word ''/tmp'' False None (Some (word ''/x''))))) state0 = Ret sv1 st1"
     and t1: "trace st1 = trace state0"
    using open_files_plain [of "simple ''cd'' (Some (Word ''/tmp'' False None (Some (word ''/x''))))" host0 state0]
    by (auto simp: simple_sel)
  obtain sv2 st2 where o2: "open_files host0 (simple ''cd'' None) state0 = Ret sv2 st2"
     and t2: "trace st2 = trace state0"
    using open_files_plain [of "simple ''cd'' None" host0 state0]
    by (auto simp: simple_sel)
  have "trace state0 = []" by (simp add: state0_def)
  then show ?thesis
    using parse_simple_cd [OF _ _ o1, of "word ''cd''"] parse_simple_cd [OF _ _ o2, of "word ''cd''"] t1 t2
    by (simp add: simple_sel host0_sel shell_cd_none shell_cd_works [where p = "''/tmp''"])
qed

text \<open>
  C7. For a command whose standard output and standard error are redirected to words
  that yield the same path: the path is opened once, with
  \<^verbatim>\<open>O_CREAT|O_WRONLY|O_APPEND|O_TRUNC\<close>, before anything else; no second open is
  made for the standard error (the only other open is the one of the standard input's
  redirection, if there is one); and when \<^verbatim>\<open>open_files\<close> returns in a process that
  had its three standard descriptors open, descriptors 1 and 2 refer to the one open
  file description that this open made. When an open fails the process ends, after the
  one open of the path or after the failed open for the standard input.
\<close>

theorem combined_redirection:
  assumes "out s = Some wo" and "err s = Some we"
    and "get_word h (environ st) (Some wo) = get_word h (environ st) (Some we)"
  shows "case open_files h s st of
           Ret saved st1 \<Rightarrow>
             trace st1 = trace st @
               EvOpen (get_word h (environ st) (Some wo)) {O_CREAT, O_WRONLY, O_APPEND, O_TRUNC} #
               (case inp s of
                  None \<Rightarrow> []
                | Some wi \<Rightarrow> [EvOpen (get_word h (environ st) (Some wi)) {O_CREAT, O_RDONLY, O_APPEND}]) \<and>
             (fd_get (fds st) STDIN_FILENO \<noteq> None \<and> fd_get (fds st) STDOUT_FILENO \<noteq> None \<and>
              fd_get (fds st) STDERR_FILENO \<noteq> None \<longrightarrow>
              fd_get (fds st1) STDOUT_FILENO =
                Some (OpenFile (next_id st) (get_word h (environ st) (Some wo))
                  {O_CREAT, O_WRONLY, O_APPEND, O_TRUNC}) \<and>
              fd_get (fds st1) STDERR_FILENO = fd_get (fds st1) STDOUT_FILENO)
         | Halt w st1 \<Rightarrow>
             trace st1 = trace st @
               EvOpen (get_word h (environ st) (Some wo)) {O_CREAT, O_WRONLY, O_APPEND, O_TRUNC} #
               (case inp s of
                  None \<Rightarrow> []
                | Some wi \<Rightarrow> [EvOpen (get_word h (environ st) (Some wi)) {O_CREAT, O_RDONLY, O_APPEND}]) \<or>
             trace st1 = trace st @
               [EvOpen (get_word h (environ st) (Some wo)) {O_CREAT, O_WRONLY, O_APPEND, O_TRUNC}]
         | Fault \<Rightarrow> False"
proof -
  let ?p = "get_word h (environ st) (Some wo)"
  let ?F = "{O_CREAT, O_WRONLY, O_APPEND, O_TRUNC}"
  let ?D = "OpenFile (next_id st) ?p ?F"
  let ?std = "fd_get (fds st) 0 \<noteq> None \<and> fd_get (fds st) 1 \<noteq> None \<and> fd_get (fds st) 2 \<noteq> None"
  note b0 = body_combined [OF assms(3), where s = s and r = "inp s"]
  show ?thesis
  proof (cases "open_files_body h s 0 ([Some wo, Some we, inp s], []) st")
    case Fault
    with b0 show ?thesis by simp
  next
    case (Halt w s0)
    with b0 show ?thesis by (simp add: open_files_def assms(1,2))
  next
    case (Ret y s0)
    with b0 obtain x0 where y: "y = ([Some wo, None, inp s], [x0])"
      and t0: "trace s0 = trace st @ [EvOpen ?p ?F]" and e0: "environ s0 = environ st"
      and f0: "?std \<longrightarrow>
          fd_get (fds s0) 0 \<noteq> None \<and> fd_get (fds s0) 1 = Some ?D \<and> fd_get (fds s0) 2 = Some ?D"
      by auto
    obtain x1 s1 where b1: "open_files_body h s 1 ([Some wo, None, inp s], [x0]) s0 =
        Ret ([Some wo, None, inp s], [x0, x1]) s1"
      and t1: "trace s1 = trace s0" and e1: "environ s1 = environ s0"
      and k1: "\<forall>k. fd_get (fds s0) k \<noteq> None \<longrightarrow> fd_get (fds s1) k = fd_get (fds s0) k"
      using body_skip [where redir = "[Some wo, None, inp s]" and i = 1 and h = h and s = s
          and saves = "[x0]" and st = s0] by auto
    have f1: "?std \<longrightarrow>
        fd_get (fds s1) 0 \<noteq> None \<and> fd_get (fds s1) 1 = Some ?D \<and> fd_get (fds s1) 2 = Some ?D"
      using k1 f0 by simp
    let ?b2 = "open_files_body h s 2 ([Some wo, None, inp s], [x0, x1]) s1"
    have loop: "open_files h s st =
        (case ?b2 of Ret u s2 \<Rightarrow> Ret (snd u) s2 | Halt w s2 \<Rightarrow> Halt w s2 | Fault \<Rightarrow> Fault)"
      using Ret y b1 by (simp add: open_files_def assms(1,2) split: outcome.split)
    have tr: "trace s1 = trace st @ [EvOpen ?p ?F]" "environ s1 = environ st"
      by (simp_all add: t1 t0 e1 e0)
    show ?thesis
    proof (cases "inp s")
      case None
      obtain x2 s2 where b2: "?b2 = Ret ([Some wo, None, inp s], [x0, x1, x2]) s2"
        and t2: "trace s2 = trace s1"
        and k2: "\<forall>k. fd_get (fds s1) k \<noteq> None \<longrightarrow> fd_get (fds s2) k = fd_get (fds s1) k"
        using body_skip [where redir = "[Some wo, None, inp s]" and i = 2 and h = h and s = s
            and saves = "[x0, x1]" and st = s1] None by auto
      have "?std \<longrightarrow> fd_get (fds s2) 1 = Some ?D \<and> fd_get (fds s2) 2 = Some ?D"
        using k2 f1 by simp
      then have "trace s2 = trace st @ [EvOpen ?p ?F] \<and>
          (fd_get (fds st) STDIN_FILENO \<noteq> None \<and> fd_get (fds st) STDOUT_FILENO \<noteq> None \<and>
           fd_get (fds st) STDERR_FILENO \<noteq> None \<longrightarrow>
           fd_get (fds s2) STDOUT_FILENO = Some ?D \<and>
           fd_get (fds s2) STDERR_FILENO = fd_get (fds s2) STDOUT_FILENO)"
        by (simp add: t2 tr STDIN_FILENO_def STDOUT_FILENO_def STDERR_FILENO_def)
      then show ?thesis
        unfolding loop b2 by (simp add: None)
    next
      case (Some wi)
      let ?q = "get_word h (environ st) (Some wi)"
      let ?G = "{O_CREAT, O_RDONLY, O_APPEND}"
      have b2: "case ?b2 of
           Ret y st1 \<Rightarrow>
             trace st1 = trace s1 @ [EvOpen ?q ?G] \<and>
             (\<forall>k. k \<noteq> 0 \<and> fd_get (fds s1) k \<noteq> None \<longrightarrow> fd_get (fds st1) k = fd_get (fds s1) k)
         | Halt w st1 \<Rightarrow> trace st1 = trace s1 @ [EvOpen ?q ?G]
         | Fault \<Rightarrow> False"
        using body_input [where redir = "[Some wo, None, inp s]" and wi = wi and h = h and s = s
          and saves = "[x0, x1]" and st = s1, unfolded tr(2)] Some
        by simp
      show ?thesis
      proof (cases ?b2)
        case Fault
        with b2 show ?thesis by simp
      next
        case (Halt w s2)
        with b2 have "trace s2 = trace st @ [EvOpen ?p ?F, EvOpen ?q ?G]"
          by (simp add: tr)
        then show ?thesis
          unfolding loop Halt by (simp add: Some)
      next
        case (Ret u s2)
        with b2 have t2: "trace s2 = trace s1 @ [EvOpen ?q ?G]"
          and k2: "\<forall>k. k \<noteq> 0 \<and> fd_get (fds s1) k \<noteq> None \<longrightarrow> fd_get (fds s2) k = fd_get (fds s1) k"
          by auto
        have "?std \<longrightarrow> fd_get (fds s2) 1 = Some ?D \<and> fd_get (fds s2) 2 = Some ?D"
          using k2 f1 by simp
        then have "trace s2 = trace st @ [EvOpen ?p ?F, EvOpen ?q ?G] \<and>
            (fd_get (fds st) STDIN_FILENO \<noteq> None \<and> fd_get (fds st) STDOUT_FILENO \<noteq> None \<and>
             fd_get (fds st) STDERR_FILENO \<noteq> None \<longrightarrow>
             fd_get (fds s2) STDOUT_FILENO = Some ?D \<and>
             fd_get (fds s2) STDERR_FILENO = fd_get (fds s2) STDOUT_FILENO)"
          by (simp add: t2 tr STDIN_FILENO_def STDOUT_FILENO_def STDERR_FILENO_def)
        then show ?thesis
          unfolding loop Ret by (simp add: Some)
      qed
    qed
  qed
qed


theorem combined_redirection_witness:
  "map_option trace (final (open_files host0 (both_to ''f'' (simple ''cd'' None)) state0)) =
     Some [EvOpen ''f'' {O_CREAT, O_WRONLY, O_APPEND, O_TRUNC}] \<and>
   map_option (\<lambda>st. fd_get (fds st) STDOUT_FILENO) (final (open_files host0 (both_to ''f'' (simple ''cd'' None)) state0)) =
     Some (Some (OpenFile 0 ''f'' {O_CREAT, O_WRONLY, O_APPEND, O_TRUNC})) \<and>
   map_option (\<lambda>st. fd_get (fds st) STDERR_FILENO) (final (open_files host0 (both_to ''f'' (simple ''cd'' None)) state0)) =
     Some (Some (OpenFile 0 ''f'' {O_CREAT, O_WRONLY, O_APPEND, O_TRUNC}))"
proof -
  obtain st1 where r: "open_files host0 (both_to ''f'' (simple ''cd'' None)) state0 = Ret [3, 4, 5] st1"
    using both_to_returns
    by (cases "open_files host0 (both_to ''f'' (simple ''cd'' None)) state0") auto
  have a: "out (both_to ''f'' (simple ''cd'' None)) = Some (word ''f'')"
    "err (both_to ''f'' (simple ''cd'' None)) = Some (word ''f'')"
    "inp (both_to ''f'' (simple ''cd'' None)) = None"
    by (simp_all add: both_to_def simple_def)
  have g: "get_word host0 (environ state0) (Some (word ''f'')) = get_word host0 (environ state0) (Some (word ''f''))"
    by simp
  have f: "fd_get (fds state0) STDIN_FILENO \<noteq> None" "fd_get (fds state0) STDOUT_FILENO \<noteq> None"
    "fd_get (fds state0) STDERR_FILENO \<noteq> None"
    by (simp_all add: state0_def fd_get_def STDIN_FILENO_def STDOUT_FILENO_def STDERR_FILENO_def)
  have z: "trace state0 = []" "next_id state0 = 0"
    by (simp_all add: state0_def)
  show ?thesis
    using combined_redirection [OF a(1,2) g] f
    unfolding r by (simp add: a(3) host0_sel z)
qed




text \<open>
  C9, as the code has it. Under the conditions of C4, the waits of the parent are the
  last events of the trace: the first wait observes the first-created child when the
  host reports it first (an even choice here) and the second-created child otherwise;
  a second wait follows only when the first observed child ended by \<^verbatim>\<open>exit\<close>, and it
  observes the other child.
\<close>

theorem parallel_wait_order:
  assumes "zombies st = []" and "can_fork h st"
    and "child_end (parse_command h a (child_of st)) = Some (w1, e1)"
    and "can_fork h (after_child st w1 e1)"
    and "child_end (parse_command h b (child_of (after_child st w1 e1))) = Some (w2, e2)"
  shows "map_option trace (final (parse_command h (Some (Command a b OP_PARALLEL sp)) st)) =
           Some (trace e2 @
             (if even (wait_pick h (after_child (after_child st w1 e1) w2 e2))
              then EvWait (nforks st) w1 # (if WIFEXITED w1 then [EvWait (Suc (nforks st)) w2] else [])
              else EvWait (Suc (nforks st)) w2 # (if WIFEXITED w2 then [EvWait (nforks st) w1] else [])))"
proof -
  have z: "zombies (after_child (after_child st w1 e1) w2 e2) =
      [(nforks st, w1), (Suc (nforks st), w2)]"
    using assms(1) by simp
  show ?thesis
    unfolding parallel_outcome [OF assms(2-5)]
    by (simp add: wait_children_two(2) [OF z] del: wait_children.simps)
qed

theorem parallel_wait_order_witness:
  "map_option trace (final (parse_command host0 (Some (node OP_PARALLEL (leaf (simple ''true'' None))
      (leaf (simple ''true'' None)))) state0)) =
   Some [EvFork, EvFork, EvWait 0 (WExit 0), EvWait 1 (WExit 0)]"
proof -
  have z: "zombies state0 = []" by (simp add: state0_def)
  have f: "can_fork host0 st" for st by (simp add: host0_sel)
  have c: "child_end (parse_command host0 (Some (leaf (simple ''true'' None))) st)
      = Some (WExit EXIT_SUCCESS, st)" for st
    by (simp add: host0_true exit_of_def)
  show ?thesis
    using parallel_wait_order [OF z f c f c, of None]
    by (simp add: node_def host0_sel state0_def EXIT_SUCCESS_def)
qed

text \<open>
  C9 as stated fails: on a host that reports the youngest ended child first, the first
  wait of \<open>true & true\<close> observes the second-created child (number 1).
\<close>

theorem youngest_child_first:
  "map_option trace (final (parse_command host1 (Some (node OP_PARALLEL (leaf (simple ''true'' None))
      (leaf (simple ''true'' None)))) state0)) =
   Some [EvFork, EvFork, EvWait 1 (WExit 0), EvWait 0 (WExit 0)]"
proof -
  let ?st2 = "after_child (after_child state0 (WExit EXIT_SUCCESS) (child_of state0)) (WExit EXIT_SUCCESS)
      (child_of (after_child state0 (WExit EXIT_SUCCESS) (child_of state0)))"
  have z: "zombies ?st2 = [(0, WExit EXIT_SUCCESS), (1, WExit EXIT_SUCCESS)]"
    by (simp add: state0_def)
  have p: "parse_command host1 (Some (Command (Some (leaf (simple ''true'' None)))
      (Some (leaf (simple ''true'' None))) OP_PARALLEL None)) state0 =
      Ret (negate (fst (wait_children host1 2 (WExit 0) ?st2))) (snd (wait_children host1 2 (WExit 0) ?st2))"
    by (rule parallel_outcome) (simp_all add: host1_sel host1_true exit_of_def)
  note t = wait_children_two(2) [OF z, of host1 "WExit 0"]
  have "trace ?st2 = [EvFork, EvFork]" "wait_pick host1 ?st2 = 1"
    by (simp_all add: state0_def host1_sel)
  with t have "trace (snd (wait_children host1 2 (WExit 0) ?st2)) =
      [EvFork, EvFork, EvWait 1 (WExit 0), EvWait 0 (WExit 0)]"
    by (simp add: EXIT_SUCCESS_def del: wait_children.simps)
  then show ?thesis
    unfolding node_def p by simp
qed

text \<open>
  C10: a node that is not empty and whose operator is none of the six known ones makes
  \<^verbatim>\<open>parse_command\<close> return \<^verbatim>\<open>SHELL_EXIT\<close>, with nothing done.
\<close>

theorem unknown_operator_exits:
  assumes "\<not> (c1 = None \<and> c2 = None \<and> sp = None)"
    and "opr \<noteq> OP_NONE" and "opr \<noteq> OP_SEQUENTIAL" and "opr \<noteq> OP_PARALLEL"
    and "opr \<noteq> OP_CONDITIONAL_NZERO" and "opr \<noteq> OP_CONDITIONAL_ZERO" and "opr \<noteq> OP_PIPE"
  shows "parse_command h (Some (Command c1 c2 opr sp)) st = Ret (SHELL_EXIT h) st"
  using assms by (cases opr) auto

theorem unknown_operator_exits_witness:
  "parse_command host0 (Some (Command None None (OP_UNKNOWN 6) (Some (simple ''ls'' None)))) state0
     = Ret (- 100) state0"
  using unknown_operator_exits [of None None "Some (simple ''ls'' None)" "OP_UNKNOWN 6" host0 state0]
  by (simp add: host0_sel)

end
